theory Spec2Isabelle
  imports Complex_Main
begin

section \<open>Python texts and values\<close>

text \<open>
  A text is a list of characters with codes below 256. The decimal constants of the
  source (\<open>0.1\<close>, \<open>0.7\<close>, ...) are read as exact rationals in \<open>real\<close>; scores are
  reals.
\<close>

datatype py_error = IndexError | ValueError | ZeroDivisionError

text \<open>The result of a call to a collaborator: it raised (with \<open>str(e)\<close>) or it returned.\<close>

datatype 'a outcome = Raised string | Returned 'a

datatype pyval =
    VNone
  | VBool bool
  | VInt int
  | VStr string
  | VList "pyval list"
  | VDict "(string \<times> pyval) list"
  | VOpaque

text \<open>\<open>str.isspace\<close> on one character.\<close>

definition is_space :: "char \<Rightarrow> bool" where
  "is_space c =
     (let n = (of_char c :: nat)
      in (9 \<le> n \<and> n \<le> 13) \<or> (28 \<le> n \<and> n \<le> 32) \<or> n = 133 \<or> n = 160)"

definition lower_char :: "char \<Rightarrow> char" where
  "lower_char c =
     (let n = (of_char c :: nat)
      in if (65 \<le> n \<and> n \<le> 90) \<or> (192 \<le> n \<and> n \<le> 222 \<and> n \<noteq> 215)
         then char_of (n + 32) else c)"


definition lower :: "string \<Rightarrow> string" where
  "lower s = map lower_char s"


definition strip :: "string \<Rightarrow> string" where
  "strip s = rev (dropWhile is_space (rev (dropWhile is_space s)))"

definition starts_with :: "string \<Rightarrow> string \<Rightarrow> bool" where
  "starts_with p s = (take (length p) s = p)"

text \<open>\<open>sub in s\<close>.\<close>

fun contains :: "string \<Rightarrow> string \<Rightarrow> bool" where
  "contains sub [] = (sub = [])"
| "contains sub (c # cs) = (starts_with sub (c # cs) \<or> contains sub cs)"

text \<open>\<open>s.split()\<close>: the maximal runs of non-space characters.\<close>

fun split_acc :: "string \<Rightarrow> string \<Rightarrow> string list" where
  "split_acc cur [] = (if cur = [] then [] else [cur])"
| "split_acc cur (c # cs) =
     (if is_space c then (if cur = [] then split_acc [] cs else cur # split_acc [] cs)
      else split_acc (cur @ [c]) cs)"

definition split_ws :: "string \<Rightarrow> string list" where
  "split_ws s = split_acc [] s"

text \<open>\<open>xs[:k]\<close> for an integer \<open>k\<close>: a negative \<open>k\<close> drops the last \<open>-k\<close> elements.\<close>

definition slice_to :: "int \<Rightarrow> 'a list \<Rightarrow> 'a list" where
  "slice_to k xs = (if 0 \<le> k then take (nat k) xs else take (length xs - nat (- k)) xs)"

text \<open>Python's truth test on an optional text: \<open>None\<close> and \<open>""\<close> are false.\<close>

fun truthy :: "string option \<Rightarrow> bool" where
  "truthy None = False"
| "truthy (Some m) = (m \<noteq> [])"


section \<open>agent/tools/sqlite_tool.py\<close>

definition is_ident_start :: "char \<Rightarrow> bool" where
  "is_ident_start c =
     (let n = (of_char c :: nat)
      in (65 \<le> n \<and> n \<le> 90) \<or> (97 \<le> n \<and> n \<le> 122) \<or> n = 95)"

definition is_name_char :: "char \<Rightarrow> bool" where
  "is_name_char c =
     (let n = (of_char c :: nat)
      in (65 \<le> n \<and> n \<le> 90) \<or> (97 \<le> n \<and> n \<le> 122) \<or> (48 \<le> n \<and> n \<le> 57)
         \<or> n = 95 \<or> n = 32)"

text \<open>
  One match of \<^verbatim>\<open>(?:FROM|JOIN)\s+([A-Za-z_][A-Za-z0-9_ ]*)\<close> (IGNORECASE) at the
  start of \<open>s\<close>: the captured group and the text after the match. The greedy \<open>\s+\<close> has
  to take the whole run of spaces, because the character after it is not a space; the
  class of the group holds the blank, so the group runs over blanks too.
\<close>

definition match_table_ref :: "string \<Rightarrow> (string \<times> string) option" where
  "match_table_ref s =
     (let kw = lower (take 4 s); s1 = drop 4 s
      in if kw = ''from'' \<or> kw = ''join'' then
           (case s1 of
              [] \<Rightarrow> None
            | w # _ \<Rightarrow>
                if is_space w then
                  (case dropWhile is_space s1 of
                     [] \<Rightarrow> None
                   | a # s2 \<Rightarrow>
                       if is_ident_start a
                       then Some (a # takeWhile is_name_char s2, dropWhile is_name_char s2)
                       else None)
                else None)
         else None)"

text \<open>\<open>re.findall\<close>: the groups of the successive non-overlapping matches, left to right.\<close>

lemma match_table_ref_shorter:
  assumes "match_table_ref s = Some (g, rest)"
  shows "length rest < length s"
proof -
  obtain a s2 where d: "dropWhile is_space (drop 4 s) = a # s2"
    and r: "rest = dropWhile is_name_char s2"
    using assms by (auto simp: match_table_ref_def Let_def split: if_splits list.splits)
  have "length rest \<le> length s2" using r by (simp add: length_dropWhile_le)
  also have "length s2 < length (dropWhile is_space (drop 4 s))" using d by simp
  also have "\<dots> \<le> length (drop 4 s)" by (rule length_dropWhile_le)
  also have "\<dots> \<le> length s" by simp
  finally show ?thesis .
qed

function findall_tables :: "string \<Rightarrow> string list" where
  "findall_tables [] = []"
| "findall_tables (c # cs) =
     (case match_table_ref (c # cs) of
        Some (g, rest) \<Rightarrow> g # findall_tables rest
      | None \<Rightarrow> findall_tables cs)"
  by pat_completeness auto
termination
proof (relation "measure length")
  show "wf (measure length)" by simp
next
  fix c :: char and cs x2 g rest
  assume "match_table_ref (c # cs) = Some x2" and "(g, rest) = x2"
  then have "length rest < length (c # cs)"
    using match_table_ref_shorter [of "c # cs" g rest] by simp
  then show "(rest, c # cs) \<in> measure length" by simp
next
  fix c :: char and cs
  show "(cs, c # cs) \<in> measure length" by simp
qed

text \<open>
  \<open>extract_tables_used\<close>: each group stripped and freed of double quotes, then
  \<open>list(set(...))\<close>, whose order Python does not fix: the result is a set.
\<close>

definition extract_tables_used :: "string \<Rightarrow> string set" where
  "extract_tables_used query =
     set (map (\<lambda>m. filter (\<lambda>c. c \<noteq> CHR 0x22) (strip m)) (findall_tables query))"

record run_result =
  r_columns :: "string list"
  r_rows :: "pyval list list"
  r_tables_used :: "string set"
  r_error :: "string option"

text \<open>
  \<open>run_sql\<close>. The store is a parameter: \<open>db query\<close> is what connecting, executing and
  fetching gives, either an exception or the column names and rows of the cursor.
\<close>

definition run_sql :: "(string \<Rightarrow> (string list \<times> pyval list list) outcome) \<Rightarrow> string \<Rightarrow> run_result" where
  "run_sql db query =
     (let result = \<lparr>r_columns = [], r_rows = [],
                    r_tables_used = extract_tables_used query, r_error = None\<rparr>
      in case db query of
           Raised e \<Rightarrow> result\<lparr>r_error := Some e\<rparr>
         | Returned (cols, rws) \<Rightarrow>
             if starts_with ''select'' (lower (strip query))
             then result\<lparr>r_columns := cols, r_rows := rws\<rparr>
             else result)"


section \<open>agent/rag/retrieval.py\<close>

record chunk =
  c_id :: string
  c_text :: string
  c_source :: string

record retrieved_chunk =
  rc_id :: string
  rc_text :: string
  rc_score :: real
  rc_source :: string

text \<open>
  The third-party functions the retriever calls, as parameters. \<open>bm25_scorer corpus\<close>
  is \<open>get_scores\<close> of the ranking index built over \<open>corpus\<close>; \<open>tfidf_fit texts\<close> is
  \<open>TfidfVectorizer().fit_transform(texts)\<close>, which may raise, and gives the similarity
  vector \<open>(self.tfidf @ self.vectorizer.transform([query]).T).toarray().squeeze()\<close> of a
  query; \<open>np_argsort\<close> is the \<open>argsort\<close> of an array.
\<close>

record libraries =
  bm25_scorer :: "string list list \<Rightarrow> string list \<Rightarrow> real list"
  tfidf_fit :: "string list \<Rightarrow> py_error + (string \<Rightarrow> real list)"
  np_argsort :: "real list \<Rightarrow> nat list"

text \<open>The retriever after \<open>__init__\<close>, with the sort it calls.\<close>

record retriever =
  chunks :: "chunk list"
  tokenized_chunks :: "string list list"
  bm25_get_scores :: "string list \<Rightarrow> real list"
  tfidf_scores :: "string \<Rightarrow> real list"
  argsort :: "real list \<Rightarrow> nat list"

text \<open>
  The constructor of the ranking index divides the number of tokens by the number of
  documents, and the sum of the term weights by the number of terms: it raises on a corpus
  with no document, and on one with no token. Its scores stay a parameter.
\<close>

definition bm25_okapi ::
  "(string list list \<Rightarrow> string list \<Rightarrow> real list) \<Rightarrow> string list list
     \<Rightarrow> py_error + (string list \<Rightarrow> real list)" where
  "bm25_okapi scorer corpus =
     (if corpus = [] then Inl ZeroDivisionError
      else if concat corpus = [] then Inl ZeroDivisionError
      else Inr (scorer corpus))"

text \<open>
  \<open>_build_indexes\<close> on the chunks that \<open>_load_docs\<close> left: the ranking index first,
  then the vector index. An exception leaves \<open>__init__\<close>, and no retriever is made.
\<close>

definition build_indexes :: "libraries \<Rightarrow> chunk list \<Rightarrow> py_error + retriever" where
  "build_indexes L cs =
     (let tokenized = map (\<lambda>c. split_ws (lower (c_text c))) cs
      in case bm25_okapi (bm25_scorer L) tokenized of
           Inl e \<Rightarrow> Inl e
         | Inr get_scores \<Rightarrow>
             (case tfidf_fit L (map c_text cs) of
                Inl e \<Rightarrow> Inl e
              | Inr similarity \<Rightarrow>
                  Inr \<lparr>chunks = cs, tokenized_chunks = tokenized,
                       bm25_get_scores = get_scores, tfidf_scores = similarity,
                       argsort = np_argsort L\<rparr>))"

text \<open>
  \<open>0.7 * bm25_scores + 0.3 * tfidf_scores\<close> on arrays: elementwise on equal lengths, a
  single element is broadcast, other shapes raise.
\<close>

definition combine :: "real list \<Rightarrow> real list \<Rightarrow> py_error + real list" where
  "combine bm tf =
     (if length bm = length tf then Inr (map2 (\<lambda>b t. 7 / 10 * b + 3 / 10 * t) bm tf)
      else case tf of
             [t] \<Rightarrow> Inr (map (\<lambda>b. 7 / 10 * b + 3 / 10 * t) bm)
           | _ \<Rightarrow> (case bm of
                     [b] \<Rightarrow> Inr (map (\<lambda>t. 7 / 10 * b + 3 / 10 * t) tf)
                   | _ \<Rightarrow> Inl ValueError))"

text \<open>
  What \<open>argsort\<close> promises on an array: every index once, in ascending order of the
  scores. It promises no order among equal scores.
\<close>

definition argsort_ok :: "(real list \<Rightarrow> nat list) \<Rightarrow> real list \<Rightarrow> bool" where
  "argsort_ok f c =
     (distinct (f c) \<and> set (f c) = {0..<length c} \<and> sorted (map (\<lambda>i. c ! i) (f c)))"

fun lookup_all :: "chunk list \<Rightarrow> real list \<Rightarrow> nat list \<Rightarrow> py_error + retrieved_chunk list" where
  "lookup_all cs combined [] = Inr []"
| "lookup_all cs combined (idx # rest) =
     (if idx < length cs then
        (case lookup_all cs combined rest of
           Inl e \<Rightarrow> Inl e
         | Inr results \<Rightarrow>
             Inr (\<lparr>rc_id = c_id (cs ! idx), rc_text = c_text (cs ! idx),
                   rc_score = combined ! idx, rc_source = c_source (cs ! idx)\<rparr> # results))
      else Inl IndexError)"

definition retrieve :: "retriever \<Rightarrow> string \<Rightarrow> int \<Rightarrow> py_error + retrieved_chunk list" where
  "retrieve R query k =
     (let query_tokens = split_ws (lower query);
          bm25_scores = bm25_get_scores R query_tokens;
          tfidf = tfidf_scores R query
      in case combine bm25_scores tfidf of
           Inl e \<Rightarrow> Inl e
         | Inr combined \<Rightarrow>
             (let top_idx = slice_to k (rev (argsort R combined))
              in lookup_all (chunks R) combined top_idx))"


text \<open>The entry of \<open>combined\<close> at an index.\<close>

definition combined_at :: "retriever \<Rightarrow> string \<Rightarrow> nat \<Rightarrow> real" where
  "combined_at R query idx =
     7 / 10 * bm25_get_scores R (split_ws (lower query)) ! idx
     + 3 / 10 * tfidf_scores R query ! idx"


section \<open>agent/graph_hybrid.py\<close>

datatype sql_result = NoResult | ErrorResult string | RunResult run_result

record agent_state =
  question :: string
  format_hint :: string
  route :: string
  retrieved_docs :: "retrieved_chunk list"
  plan :: pyval
  sql :: string
  sql_result :: sql_result
  rows :: "pyval list list"
  columns :: "string list"
  tables_used :: "string set"
  error :: "string option"
  citations :: pyval
  final_answer :: string
  explanation :: string
  repairs :: int

text \<open>
  \<open>node_router\<close>. The reply of \<open>router(question=q)\<close> is an exception or the \<open>route\<close>
  attribute of the prediction, \<open>None\<close> when the attribute is missing or null (both give
  \<open>hybrid\<close>).
\<close>

fun node_router :: "string option outcome \<Rightarrow> agent_state \<Rightarrow> agent_state" where
  "node_router (Returned None) s = s\<lparr>route := ''hybrid''\<rparr>"
| "node_router (Returned (Some r)) s =
     (if r \<noteq> [] then s\<lparr>route := lower (strip r)\<rparr> else s\<lparr>route := ''hybrid''\<rparr>)"
| "node_router (Raised e) s =
     s\<lparr>route := ''hybrid'', error := Some (''Router failed: '' @ take 100 e)\<rparr>"

definition node_retrieve :: "retriever \<Rightarrow> agent_state \<Rightarrow> py_error + agent_state" where
  "node_retrieve R s =
     (case retrieve R (question s) 6 of
        Inl e \<Rightarrow> Inl e
      | Inr docs \<Rightarrow> Inr (s\<lparr>retrieved_docs := docs\<rparr>))"

text \<open>\<open>node_planner\<close> has no handler: an exception of the planner leaves the graph.\<close>

fun node_planner :: "pyval outcome \<Rightarrow> agent_state \<Rightarrow> string + agent_state" where
  "node_planner (Raised e) s = Inl e"
| "node_planner (Returned p) s = Inr (s\<lparr>plan := p\<rparr>)"

text \<open>
  \<open>node_sqlgen\<close>. The reply of \<open>nl2sql\<close>: an exception, \<open>None\<close>, or a prediction whose
  \<open>sql\<close> attribute is missing or null (\<open>Some None\<close>) or a text.
\<close>

fun node_sqlgen :: "string option option outcome \<Rightarrow> agent_state \<Rightarrow> agent_state" where
  "node_sqlgen (Raised e) s =
     s\<lparr>sql := [], sql_result := ErrorResult (''NL2SQL call failed: '' @ e), error := Some e\<rparr>"
| "node_sqlgen (Returned None) s =
     s\<lparr>sql := [], sql_result := ErrorResult ''NL2SQL produced no output'',
       error := Some ''NL2SQL produced no output''\<rparr>"
| "node_sqlgen (Returned (Some None)) s =
     s\<lparr>sql := [], sql_result := ErrorResult ''NL2SQL returned empty SQL'',
       error := Some ''NL2SQL returned empty SQL''\<rparr>"
| "node_sqlgen (Returned (Some (Some sql_text))) s =
     (if sql_text = [] then
        s\<lparr>sql := [], sql_result := ErrorResult ''NL2SQL returned empty SQL'',
          error := Some ''NL2SQL returned empty SQL''\<rparr>
      else s\<lparr>sql := strip sql_text\<rparr>)"

definition node_sqlexec ::
  "(string \<Rightarrow> (string list \<times> pyval list list) outcome) \<Rightarrow> agent_state \<Rightarrow> agent_state" where
  "node_sqlexec db s =
     (let query = sql s
      in if query = [] then s\<lparr>sql_result := ErrorResult ''Empty SQL.''\<rparr>
         else (let result = run_sql db query
               in s\<lparr>sql_result := RunResult result, rows := r_rows result,
                     columns := r_columns result, tables_used := r_tables_used result,
                     error := r_error result\<rparr>))"

text \<open>
  The prediction of \<open>synth\<close>: each attribute may be missing, and \<open>getattr\<close> then gives
  its default.
\<close>

record synth_output =
  out_final_answer :: "string option"
  out_explanation :: "string option"
  out_citations :: "pyval option"

fun node_synthesize :: "synth_output option outcome \<Rightarrow> agent_state \<Rightarrow> agent_state" where
  "node_synthesize (Raised e) s =
     s\<lparr>final_answer := ''Unable to synthesize answer: '' @ take 100 e,
       explanation := ''The synthesis step encountered an error.'',
       citations := VList [], error := Some e\<rparr>"
| "node_synthesize (Returned None) s =
     s\<lparr>final_answer := ''No synthesis output'', explanation := [], citations := VList []\<rparr>"
| "node_synthesize (Returned (Some out)) s =
     s\<lparr>final_answer := (case out_final_answer out of None \<Rightarrow> [] | Some a \<Rightarrow> a),
       explanation := (case out_explanation out of None \<Rightarrow> [] | Some x \<Rightarrow> x),
       citations := (case out_citations out of None \<Rightarrow> VList [] | Some c \<Rightarrow> c)\<rparr>"

definition node_validate_or_repair :: "agent_state \<Rightarrow> agent_state" where
  "node_validate_or_repair s =
     (if truthy (error s) then
        (if repairs s \<ge> 2 then s
         else (let s1 = s\<lparr>repairs := repairs s + 1\<rparr>;
                   new_state = s1\<lparr>sql := []\<rparr>
               in new_state))
      else s)"

definition should_repair :: "agent_state \<Rightarrow> string" where
  "should_repair s =
     (if truthy (error s) \<and> repairs s < 2 then ''repair'' else ''end'')"

definition compute_confidence :: "agent_state \<Rightarrow> real" where
  "compute_confidence s =
     (let conf = 1 / 10;
          conf = (if \<not> truthy (error s) then conf + 4 / 10 else conf);
          conf = (if repairs s = 0 then conf + 3 / 10 else conf);
          conf = (if retrieved_docs s \<noteq> [] then conf + 3 / 10 else conf)
      in min conf 1)"

subsection \<open>The graph\<close>

datatype node =
  Router | Retrieve | Planner | SqlGen | SqlExec | Synthesize | Repair | End | Aborted

text \<open>What the collaborators answer during one step of the graph.\<close>

record replies =
  router_reply :: "string option outcome"
  planner_reply :: "pyval outcome"
  nl2sql_reply :: "string option option outcome"
  store_reply :: "string \<Rightarrow> (string list \<times> pyval list list) outcome"
  synth_reply :: "synth_output option outcome"

text \<open>
  One step of the compiled graph: the node runs, its returned state replaces the state,
  and the edge of \<open>build_graph\<close> gives the next node. An exception that leaves a node
  aborts the run.
\<close>

fun step :: "retriever \<Rightarrow> replies \<Rightarrow> node \<times> agent_state \<Rightarrow> node \<times> agent_state" where
  "step R w (Router, s) = (Retrieve, node_router (router_reply w) s)"
| "step R w (Retrieve, s) =
     (case node_retrieve R s of Inl e \<Rightarrow> (Aborted, s) | Inr s' \<Rightarrow> (Planner, s'))"
| "step R w (Planner, s) =
     (case node_planner (planner_reply w) s of Inl e \<Rightarrow> (Aborted, s) | Inr s' \<Rightarrow> (SqlGen, s'))"
| "step R w (SqlGen, s) = (SqlExec, node_sqlgen (nl2sql_reply w) s)"
| "step R w (SqlExec, s) = (Synthesize, node_sqlexec (store_reply w) s)"
| "step R w (Synthesize, s) =
     (let s' = node_synthesize (synth_reply w) s
      in (if should_repair s' = ''repair'' then Repair else End, s'))"
| "step R w (Repair, s) = (SqlGen, node_validate_or_repair s)"
| "step R w (End, s) = (End, s)"
| "step R w (Aborted, s) = (Aborted, s)"

fun run :: "retriever \<Rightarrow> replies list \<Rightarrow> node \<times> agent_state \<Rightarrow> node \<times> agent_state" where
  "run R [] c = c"
| "run R (w # ws) c = run R ws (step R w c)"

text \<open>The inputs of \<open>run_hybrid_agent\<close>.\<close>

definition initial_state :: "string \<Rightarrow> string \<Rightarrow> agent_state" where
  "initial_state q fmt =
     \<lparr>question = q, format_hint = fmt, route = [], retrieved_docs = [], plan = VDict [],
      sql = [], sql_result = NoResult, rows = [], columns = [], tables_used = {},
      error = None, citations = VList [], final_answer = [], explanation = [],
      repairs = 0\<rparr>"


section \<open>agent/dspy_signatures.py\<close>


























text \<open>
  \<open>str(mapped[key])\<close> is applied to the explanation and the final answer only, and the
  heuristics store texts under these keys: the text under a key, if it is one.
\<close>

definition text_at :: "string \<Rightarrow> (string \<times> pyval) list \<Rightarrow> string option" where
  "text_at key d = (case map_of d key of Some (VStr v) \<Rightarrow> Some v | _ \<Rightarrow> None)"

definition route_in :: "string \<Rightarrow> string option" where
  "route_in val =
     (if contains ''rag'' val then Some ''rag''
      else if contains ''sql'' val then Some ''sql''
      else if contains ''hybrid'' val then Some ''hybrid''
      else None)"

fun infer_route :: "string list \<Rightarrow> (string \<times> pyval) list \<Rightarrow> string option" where
  "infer_route [] mapped = None"
| "infer_route (candidate_key # keys) mapped =
     (case text_at candidate_key mapped of
        None \<Rightarrow> infer_route keys mapped
      | Some v \<Rightarrow>
          (case route_in (lower v) of
             Some route_type \<Rightarrow> Some route_type
           | None \<Rightarrow> infer_route keys mapped))"












subsection \<open>Example inputs\<close>


definition corpus_a :: chunk where
  "corpus_a = \<lparr>c_id = ''A::chunk0'', c_text = ''Beverages return within 30 days.'',
                c_source = ''A.md''\<rparr>"

definition corpus_b :: chunk where
  "corpus_b = \<lparr>c_id = ''B::chunk0'', c_text = ''Widgets ship in 5 days.'',
                c_source = ''B.md''\<rparr>"

text \<open>
  Stand-ins for the libraries: a document scores 1 when it shares a token with the query,
  the vector similarity is zero, and the sort is by insertion.
\<close>

definition overlap_scores :: "string list list \<Rightarrow> string list \<Rightarrow> real list" where
  "overlap_scores corpus query_tokens =
     map (\<lambda>doc. if list_ex (\<lambda>t. t \<in> set doc) query_tokens then 1 else 0) corpus"

definition insertion_argsort :: "real list \<Rightarrow> nat list" where
  "insertion_argsort c = sort_key (\<lambda>i. c ! i) [0..<length c]"

definition example_libraries :: libraries where
  "example_libraries =
     \<lparr>bm25_scorer = overlap_scores,
      tfidf_fit = (\<lambda>texts. if texts = [] then Inl ValueError
                            else Inr (\<lambda>query. map (\<lambda>t. 0) texts)),
      np_argsort = insertion_argsort\<rparr>"

definition example_retriever :: retriever where
  "example_retriever =
     \<lparr>chunks = [corpus_a, corpus_b],
      tokenized_chunks = [[''beverages'', ''return'', ''within'', ''30'', ''days.''],
                          [''widgets'', ''ship'', ''in'', ''5'', ''days.'']],
      bm25_get_scores = overlap_scores [[''beverages'', ''return'', ''within'', ''30'', ''days.''],
                                        [''widgets'', ''ship'', ''in'', ''5'', ''days.'']],
      tfidf_scores = (\<lambda>query. [0, 0]),
      argsort = insertion_argsort\<rparr>"

text \<open>Collaborators whose query fails in the store every time.\<close>

definition failing_replies :: replies where
  "failing_replies =
     \<lparr>router_reply = Returned (Some ''sql''),
      planner_reply = Returned (VDict []),
      nl2sql_reply = Returned (Some (Some ''SELECT n FROM missing'')),
      store_reply = (\<lambda>query. Raised ''no such table: missing''),
      synth_reply = Returned None\<rparr>"

subsection \<open>Example states of the graph\<close>

definition failed_state :: agent_state where
  "failed_state =
     (initial_state ''q'' ''text'')\<lparr>sql := ''SELECT 1'', error := Some ''no such table''\<rparr>"



section \<open>Properties of the retriever\<close>

lemma lookup_all_in_range:
  "\<forall>i \<in> set idxs. i < length cs \<Longrightarrow>
   lookup_all cs c idxs =
     Inr (map (\<lambda>i. \<lparr>rc_id = c_id (cs ! i), rc_text = c_text (cs ! i), rc_score = c ! i,
                     rc_source = c_source (cs ! i)\<rparr>) idxs)"
  by (induction idxs) simp_all

lemma combine_equal_length:
  "length bm = length tf \<Longrightarrow> combine bm tf = Inr (map2 (\<lambda>b t. 7 / 10 * b + 3 / 10 * t) bm tf)"
  by (simp add: combine_def)

lemma set_slice_to: "set (slice_to k xs) \<subseteq> set xs"
  by (auto simp: slice_to_def dest: in_set_takeD)


lemma insertion_argsort_ok: "argsort_ok insertion_argsort c"
  by (simp add: argsort_ok_def insertion_argsort_def sorted_sort_key)

text \<open>The result of \<open>retrieve\<close>: the chunks of the reversed sort, cut by the slice.\<close>

lemma retrieve_ranked:
  assumes bm: "length (bm25_get_scores R (split_ws (lower query))) = length (chunks R)"
      and tf: "length (tfidf_scores R query) = length (chunks R)"
      and srt: "argsort_ok (argsort R) (map (combined_at R query) [0..<length (chunks R)])"
  shows "retrieve R query k =
     Inr (map (\<lambda>i. \<lparr>rc_id = c_id (chunks R ! i), rc_text = c_text (chunks R ! i),
                     rc_score = combined_at R query i,
                     rc_source = c_source (chunks R ! i)\<rparr>)
            (slice_to k (rev (argsort R (map (combined_at R query) [0..<length (chunks R)])))))"
proof -
  define bs where "bs = bm25_get_scores R (split_ws (lower query))"
  define ts where "ts = tfidf_scores R query"
  define n where "n = length (chunks R)"
  define c where "c = map (combined_at R query) [0..<n]"
  define idxs where "idxs = slice_to k (rev (argsort R c))"
  have "map2 (\<lambda>b t. 7 / 10 * b + 3 / 10 * t) bs ts = c"
    using bm tf
    by (intro nth_equalityI) (simp_all add: c_def bs_def ts_def n_def combined_at_def)
  then have comb: "combine bs ts = Inr c"
    using bm tf by (simp add: combine_equal_length bs_def ts_def)
  have "set idxs \<subseteq> set (rev (argsort R c))" unfolding idxs_def by (rule set_slice_to)
  then have in_range: "\<forall>i \<in> set idxs. i < length (chunks R)"
    using srt by (auto simp: argsort_ok_def c_def n_def)
  have "retrieve R query k = lookup_all (chunks R) c idxs"
    using comb by (simp add: retrieve_def Let_def bs_def ts_def idxs_def)
  also have "\<dots> = Inr (map (\<lambda>i. \<lparr>rc_id = c_id (chunks R ! i), rc_text = c_text (chunks R ! i),
                     rc_score = c ! i, rc_source = c_source (chunks R ! i)\<rparr>) idxs)"
    by (rule lookup_all_in_range [OF in_range])
  also have "\<dots> = Inr (map (\<lambda>i. \<lparr>rc_id = c_id (chunks R ! i), rc_text = c_text (chunks R ! i),
                     rc_score = combined_at R query i,
                     rc_source = c_source (chunks R ! i)\<rparr>) idxs)"
    using in_range by (simp add: c_def n_def)
  finally show ?thesis unfolding idxs_def c_def n_def .
qed







text \<open>
  C4, as the claim states it, fails: no retriever is built over an empty corpus. With no
  chunk the construction of the ranking index raises, the exception leaves \<open>__init__\<close>,
  and \<open>retrieve\<close> is never reached.
\<close>

theorem build_empty_corpus_counterexample:
  "build_indexes example_libraries [] = Inl ZeroDivisionError"
  by (simp add: build_indexes_def bm25_okapi_def)

text \<open>
  C4, amended. Over an empty corpus the construction of the retriever raises
  \<open>ZeroDivisionError\<close> in \<open>_build_indexes\<close>, whatever the libraries compute otherwise;
  every retriever that is built holds the chunks it was given, at least one.
\<close>

theorem build_indexes_empty_corpus:
  "build_indexes L [] = Inl ZeroDivisionError
   \<and> (build_indexes L cs = Inr R \<longrightarrow> cs \<noteq> [] \<and> chunks R = cs)"
  by (auto simp: build_indexes_def bm25_okapi_def Let_def split: sum.splits if_splits)

theorem build_indexes_empty_corpus_witness:
  "build_indexes example_libraries [corpus_a, corpus_b] = Inr example_retriever
   \<and> [corpus_a, corpus_b] \<noteq> [] \<and> chunks example_retriever = [corpus_a, corpus_b]"
proof -
  have t: "map (\<lambda>c. split_ws (lower (c_text c))) [corpus_a, corpus_b] =
      [[''beverages'', ''return'', ''within'', ''30'', ''days.''],
       [''widgets'', ''ship'', ''in'', ''5'', ''days.'']]"
    by code_simp
  have b: "build_indexes example_libraries [corpus_a, corpus_b] = Inr example_retriever"
    unfolding build_indexes_def Let_def t
    by (simp add: bm25_okapi_def example_libraries_def example_retriever_def)
  show ?thesis
    using build_indexes_empty_corpus [of example_libraries "[corpus_a, corpus_b]" example_retriever] b
    by simp
qed


section \<open>Properties of the workflow controller\<close>

lemma repairs_node_router: "repairs (node_router r s) = repairs s"
  by (cases "(r, s)" rule: node_router.cases) simp_all

lemma repairs_node_sqlgen: "repairs (node_sqlgen r s) = repairs s"
  by (cases "(r, s)" rule: node_sqlgen.cases) simp_all

lemma repairs_node_synthesize: "repairs (node_synthesize r s) = repairs s"
  by (cases "(r, s)" rule: node_synthesize.cases) simp_all

lemma repairs_node_sqlexec: "repairs (node_sqlexec db s) = repairs s"
  by (simp add: node_sqlexec_def Let_def)

lemma repairs_node_retrieve: "node_retrieve R s = Inr s' \<Longrightarrow> repairs s' = repairs s"
  by (auto simp: node_retrieve_def split: sum.splits)

lemma repairs_node_planner: "node_planner r s = Inr s' \<Longrightarrow> repairs s' = repairs s"
  by (cases "(r, s)" rule: node_planner.cases) auto

text \<open>
  The invariant of the repair loop: the counter stays in \<open>[0, 2]\<close>, and the graph stands
  at the repair node only with a counter below 2, since \<open>should_repair\<close> sent it there.
\<close>

definition repair_inv :: "node \<times> agent_state \<Rightarrow> bool" where
  "repair_inv c =
     (0 \<le> repairs (snd c) \<and> repairs (snd c) \<le> 2 \<and> (fst c = Repair \<longrightarrow> repairs (snd c) < 2))"

lemma step_repair_inv:
  assumes inv: "repair_inv (n, s)"
  shows "repair_inv (step R w (n, s))"
proof (cases n)
  case Router
  then show ?thesis using inv by (simp add: repair_inv_def repairs_node_router)
next
  case Retrieve
  show ?thesis
  proof (cases "node_retrieve R s")
    case (Inl e)
    then show ?thesis using inv Retrieve by (simp add: repair_inv_def)
  next
    case (Inr s')
    then show ?thesis using inv Retrieve repairs_node_retrieve [OF Inr]
      by (simp add: repair_inv_def)
  qed
next
  case Planner
  show ?thesis
  proof (cases "node_planner (planner_reply w) s")
    case (Inl e)
    then show ?thesis using inv Planner by (simp add: repair_inv_def)
  next
    case (Inr s')
    then show ?thesis using inv Planner repairs_node_planner [OF Inr]
      by (simp add: repair_inv_def)
  qed
next
  case SqlGen
  then show ?thesis using inv by (simp add: repair_inv_def repairs_node_sqlgen)
next
  case SqlExec
  then show ?thesis using inv by (simp add: repair_inv_def repairs_node_sqlexec)
next
  case Synthesize
  then show ?thesis using inv
    by (simp add: repair_inv_def Let_def should_repair_def repairs_node_synthesize)
next
  case Repair
  then show ?thesis using inv
    by (simp add: repair_inv_def node_validate_or_repair_def Let_def)
next
  case End
  then show ?thesis using inv by (simp add: repair_inv_def)
next
  case Aborted
  then show ?thesis using inv by (simp add: repair_inv_def)
qed

lemma run_repair_inv: "repair_inv c \<Longrightarrow> repair_inv (run R ws c)"
proof (induction ws arbitrary: c)
  case Nil
  then show ?case by simp
next
  case (Cons w ws)
  obtain n s where c: "c = (n, s)" by (cases c)
  have "repair_inv (step R w c)" using Cons.prems step_repair_inv c by simp
  then show ?case using Cons.IH by simp
qed

text \<open>
  C1. From the initial state, whatever the collaborators reply and however long the run,
  the repair counter of the state never exceeds 2; \<open>should_repair\<close> answers \<open>repair\<close>
  exactly when the error is set (a non-empty text) and the counter is below 2.
\<close>

theorem repairs_never_exceed_two:
  "repairs (snd (run R ws (Router, initial_state q fmt))) \<le> 2
   \<and> (should_repair s = ''repair'') = (truthy (error s) \<and> repairs s < 2)"
proof -
  have "repair_inv (Router, initial_state q fmt)"
    by (simp add: repair_inv_def initial_state_def)
  then have "repair_inv (run R ws (Router, initial_state q fmt))"
    by (rule run_repair_inv)
  then show ?thesis by (simp add: repair_inv_def should_repair_def)
qed

text \<open>
  C5. The confidence is 0.1, plus 0.4 when the error is unset (Python's truth test: null
  or empty), plus 0.3 when no repair was made, plus 0.3 when documents were retrieved,
  cut at 1; it lies in \<open>[0.1, 1]\<close> and does not decrease when one of the three conditions
  becomes true.
\<close>

theorem compute_confidence_value:
  "compute_confidence s =
     min 1 (1 / 10 + (if truthy (error s) then 0 else 4 / 10)
                   + (if repairs s = 0 then 3 / 10 else 0)
                   + (if retrieved_docs s = [] then 0 else 3 / 10))
   \<and> 1 / 10 \<le> compute_confidence s \<and> compute_confidence s \<le> 1
   \<and> ((truthy (error s') \<longrightarrow> truthy (error s))
        \<and> (repairs s = 0 \<longrightarrow> repairs s' = 0)
        \<and> (retrieved_docs s \<noteq> [] \<longrightarrow> retrieved_docs s' \<noteq> [])
       \<longrightarrow> compute_confidence s \<le> compute_confidence s')"
  by (simp add: compute_confidence_def Let_def)

theorem compute_confidence_value_witness:
  "compute_confidence failed_state = 4 / 10
   \<and> compute_confidence failed_state \<le> compute_confidence (initial_state ''q'' ''text'')"
  using compute_confidence_value [of failed_state "initial_state ''q'' ''text''"]
  by (simp add: failed_state_def initial_state_def)

lemma repair_follows_decision:
  "node_validate_or_repair s =
     (if should_repair s = ''repair'' then s\<lparr>repairs := repairs s + 1, sql := []\<rparr> else s)"
  by (simp add: node_validate_or_repair_def should_repair_def Let_def)

text \<open>The graph stands at the repair node only after \<open>should_repair\<close> has sent it there.\<close>

definition invoked_inv :: "node \<times> agent_state \<Rightarrow> bool" where
  "invoked_inv c = (fst c = Repair \<longrightarrow> should_repair (snd c) = ''repair'')"

lemma step_invoked_inv: "invoked_inv (step R w (n, s))"
proof (cases n)
  case Retrieve
  then show ?thesis by (cases "node_retrieve R s") (simp_all add: invoked_inv_def)
next
  case Planner
  then show ?thesis
    by (cases "node_planner (planner_reply w) s") (simp_all add: invoked_inv_def)
next
  case Synthesize
  then show ?thesis by (simp add: invoked_inv_def Let_def)
qed (simp_all add: invoked_inv_def)

lemma run_invoked_inv: "invoked_inv c \<Longrightarrow> invoked_inv (run R ws c)"
proof (induction ws arbitrary: c)
  case Nil
  then show ?case by simp
next
  case (Cons w ws)
  obtain n s where c: "c = (n, s)" by (cases c)
  have "invoked_inv (step R w c)" unfolding c by (rule step_invoked_inv)
  then show ?case using Cons.IH by simp
qed

text \<open>
  C6. On every state on which the controller invokes the repair node (the graph, run from
  the initial state, stands at that node) the error is set and the counter is below 2, and
  the node returns the state with the counter incremented by one and the query emptied;
  the graph then goes to query generation. The bound on the counter comes from
  \<open>should_repair\<close>: the checks written inside the node never stop it there.
\<close>

theorem repair_on_invocation:
  assumes "run R ws (Router, initial_state q fmt) = (Repair, s)"
  shows "truthy (error s) \<and> repairs s < 2
     \<and> node_validate_or_repair s = s\<lparr>repairs := repairs s + 1, sql := []\<rparr>
     \<and> repairs (node_validate_or_repair s) = repairs s + 1
     \<and> sql (node_validate_or_repair s) = []
     \<and> step R w (Repair, s) = (SqlGen, s\<lparr>repairs := repairs s + 1, sql := []\<rparr>)"
proof -
  have "invoked_inv (Router, initial_state q fmt)" by (simp add: invoked_inv_def)
  then have "invoked_inv (run R ws (Router, initial_state q fmt))" by (rule run_invoked_inv)
  then have d: "should_repair s = ''repair''" using assms by (simp add: invoked_inv_def)
  then have e: "truthy (error s) \<and> repairs s < 2"
    by (simp add: should_repair_def split: if_splits)
  have r: "node_validate_or_repair s = s\<lparr>repairs := repairs s + 1, sql := []\<rparr>"
    using d by (simp add: repair_follows_decision)
  show ?thesis using e r by simp
qed

theorem repair_on_invocation_witness:
  "fst (run example_retriever
          [failing_replies, failing_replies, failing_replies, failing_replies,
           failing_replies, failing_replies]
          (Router, initial_state ''How many widgets ship?'' ''int'')) = Repair
   \<and> repairs (node_validate_or_repair (snd (run example_retriever
          [failing_replies, failing_replies, failing_replies, failing_replies,
           failing_replies, failing_replies]
          (Router, initial_state ''How many widgets ship?'' ''int'')))) = 1
   \<and> sql (node_validate_or_repair (snd (run example_retriever
          [failing_replies, failing_replies, failing_replies, failing_replies,
           failing_replies, failing_replies]
          (Router, initial_state ''How many widgets ship?'' ''int'')))) = []"
proof -
  let ?R = example_retriever and ?q = "''How many widgets ship?''"
  let ?ws = "[failing_replies, failing_replies, failing_replies, failing_replies,
           failing_replies, failing_replies]"
  let ?c = "run ?R ?ws (Router, initial_state ?q ''int'')"
  have h1: "length (bm25_get_scores ?R (split_ws (lower ?q))) = length (chunks ?R)"
    by (simp add: example_retriever_def overlap_scores_def)
  have h2: "length (tfidf_scores ?R ?q) = length (chunks ?R)"
    by (simp add: example_retriever_def)
  have "argsort ?R = insertion_argsort" by (simp add: example_retriever_def)
  then have h3: "argsort_ok (argsort ?R) (map (combined_at ?R ?q) [0..<length (chunks ?R)])"
    by (simp add: insertion_argsort_ok)
  obtain docs where r: "retrieve ?R ?q 6 = Inr docs"
    using retrieve_ranked [OF h1 h2 h3, of 6] by blast
  have st: "strip ''SELECT n FROM missing'' = ''SELECT n FROM missing''" by code_simp
  have n: "fst ?c = Repair" and e: "repairs (snd ?c) = 0"
    by (simp_all add: failing_replies_def initial_state_def node_retrieve_def r st
        node_sqlexec_def run_sql_def Let_def should_repair_def)
  have c: "?c = (Repair, snd ?c)" using n by (metis prod.collapse)
  show ?thesis
    using repair_on_invocation [OF c, of failing_replies] n e by simp
qed

text \<open>
  C10. With the error set and the counter below 2, the state returned by the repair node
  is the input with the counter incremented and the query emptied; every other field is
  that of the input.
\<close>

theorem repair_frame:
  assumes "truthy (error s)" and "repairs s < 2"
  shows "node_validate_or_repair s = s\<lparr>repairs := repairs s + 1, sql := []\<rparr>
     \<and> repairs (node_validate_or_repair s) = repairs s + 1
     \<and> sql (node_validate_or_repair s) = []
     \<and> question (node_validate_or_repair s) = question s
     \<and> format_hint (node_validate_or_repair s) = format_hint s
     \<and> route (node_validate_or_repair s) = route s
     \<and> retrieved_docs (node_validate_or_repair s) = retrieved_docs s
     \<and> plan (node_validate_or_repair s) = plan s
     \<and> sql_result (node_validate_or_repair s) = sql_result s
     \<and> rows (node_validate_or_repair s) = rows s
     \<and> columns (node_validate_or_repair s) = columns s
     \<and> tables_used (node_validate_or_repair s) = tables_used s
     \<and> error (node_validate_or_repair s) = error s
     \<and> citations (node_validate_or_repair s) = citations s
     \<and> final_answer (node_validate_or_repair s) = final_answer s
     \<and> explanation (node_validate_or_repair s) = explanation s"
  using assms by (simp add: node_validate_or_repair_def Let_def)

theorem repair_frame_witness:
  "truthy (error failed_state) \<and> repairs failed_state < 2
   \<and> repairs (node_validate_or_repair failed_state) = 1
   \<and> sql (node_validate_or_repair failed_state) = []
   \<and> error (node_validate_or_repair failed_state) = Some ''no such table''"
proof -
  have h1: "truthy (error failed_state)" by (simp add: failed_state_def initial_state_def)
  have h2: "repairs failed_state < 2" by (simp add: failed_state_def initial_state_def)
  show ?thesis using repair_frame [OF h1 h2] h1 h2
    by (simp add: failed_state_def initial_state_def)
qed

text \<open>
  C7, as the claim states it, fails: on a null output the final answer is the fixed text
  \<open>No synthesis output\<close>, not the empty text.
\<close>

theorem synthesize_null_counterexample:
  "final_answer (node_synthesize (Returned None) (initial_state ''q'' ''text'')) =
     ''No synthesis output''
   \<and> final_answer (node_synthesize (Returned None) (initial_state ''q'' ''text'')) \<noteq> []"
  by simp

text \<open>
  C7, amended. On a null output the synthesis node sets the final answer to
  \<open>No synthesis output\<close>, the explanation to the empty text and the citations to the
  empty list, and leaves the error field as it was.
\<close>

theorem synthesize_null_output:
  "final_answer (node_synthesize (Returned None) s) = ''No synthesis output''
   \<and> explanation (node_synthesize (Returned None) s) = []
   \<and> citations (node_synthesize (Returned None) s) = VList []
   \<and> error (node_synthesize (Returned None) s) = error s"
  by simp


section \<open>Properties of the SQLite tool\<close>

lemma tables_used_run_sql: "r_tables_used (run_sql db query) = extract_tables_used query"
proof (cases "db query")
  case (Raised e)
  then show ?thesis by (simp add: run_sql_def)
next
  case (Returned p)
  then show ?thesis by (cases p) (simp add: run_sql_def Let_def)
qed

text \<open>
  C3. On \<open>SELECT ProductName FROM Products LIMIT 1\<close> and any store, the tables reported
  by \<open>run_sql\<close> are the single name \<open>Products LIMIT 1\<close>, not \<open>Products\<close>: the group of
  the pattern accepts blanks and runs to the end of the query.
\<close>

theorem tables_used_limit_query:
  "r_tables_used (run_sql db ''SELECT ProductName FROM Products LIMIT 1'') =
     {''Products LIMIT 1''}
   \<and> r_tables_used (run_sql db ''SELECT ProductName FROM Products LIMIT 1'') \<noteq>
     {''Products''}"
proof -
  have e: "extract_tables_used ''SELECT ProductName FROM Products LIMIT 1'' =
      {''Products LIMIT 1''}"
    by code_simp
  have n: "{''Products LIMIT 1''} \<noteq> {''Products''}" by simp
  show ?thesis unfolding tables_used_run_sql e using n by simp
qed


section \<open>Properties of the route stage\<close>

lemma route_node_sqlgen: "route (node_sqlgen r s) = route s"
  by (cases "(r, s)" rule: node_sqlgen.cases) simp_all

lemma route_node_synthesize: "route (node_synthesize r s) = route s"
  by (cases "(r, s)" rule: node_synthesize.cases) simp_all

lemma route_node_sqlexec: "route (node_sqlexec db s) = route s"
  by (simp add: node_sqlexec_def Let_def)

lemma route_node_retrieve: "node_retrieve R s = Inr s' \<Longrightarrow> route s' = route s"
  by (auto simp: node_retrieve_def split: sum.splits)

lemma route_node_planner: "node_planner r s = Inr s' \<Longrightarrow> route s' = route s"
  by (cases "(r, s)" rule: node_planner.cases) auto

lemma route_node_validate_or_repair: "route (node_validate_or_repair s) = route s"
  by (simp add: node_validate_or_repair_def Let_def)

lemma step_keeps_route:
  assumes "n \<noteq> Router"
  shows "fst (step R w (n, s)) \<noteq> Router \<and> route (snd (step R w (n, s))) = route s"
proof (cases n)
  case Router
  then show ?thesis using assms by simp
next
  case Retrieve
  show ?thesis
  proof (cases "node_retrieve R s")
    case (Inl e)
    then show ?thesis using Retrieve by simp
  next
    case (Inr s')
    then show ?thesis using Retrieve route_node_retrieve [OF Inr] by simp
  qed
next
  case Planner
  show ?thesis
  proof (cases "node_planner (planner_reply w) s")
    case (Inl e)
    then show ?thesis using Planner by simp
  next
    case (Inr s')
    then show ?thesis using Planner route_node_planner [OF Inr] by simp
  qed
next
  case SqlGen
  then show ?thesis by (simp add: route_node_sqlgen)
next
  case SqlExec
  then show ?thesis by (simp add: route_node_sqlexec)
next
  case Synthesize
  then show ?thesis by (simp add: Let_def route_node_synthesize)
next
  case Repair
  then show ?thesis by (simp add: route_node_validate_or_repair)
next
  case End
  then show ?thesis by simp
next
  case Aborted
  then show ?thesis by simp
qed

lemma run_keeps_route: "n \<noteq> Router \<Longrightarrow> route (snd (run R ws (n, s))) = route s"
proof (induction ws arbitrary: n s)
  case Nil
  then show ?case by simp
next
  case (Cons w ws)
  obtain n' s' where st: "step R w (n, s) = (n', s')" by (cases "step R w (n, s)")
  have "n' \<noteq> Router" and "route s' = route s"
    using step_keeps_route [OF Cons.prems, of R w s] st by simp_all
  then show ?case using Cons.IH [of n' s'] st by simp
qed

text \<open>
  C9, as the claim states it, fails: the route node stores the router's answer stripped
  and in lower case without comparing it with the three route names, so an answer such as
  \<open>Database\<close> leaves a route outside \<open>rag\<close>, \<open>sql\<close>, \<open>hybrid\<close>.
\<close>

theorem route_unvalidated_counterexample:
  "route (node_router (Returned (Some '' Database '')) (initial_state ''q'' ''text'')) = ''database''
   \<and> ''database'' \<notin> {''rag'', ''sql'', ''hybrid''}"
proof -
  have "lower (strip '' Database '') = ''database''" by code_simp
  then show ?thesis by simp
qed

text \<open>
  C9, amended. Once the route node has run, the route is \<open>hybrid\<close> when the router
  raised or gave no or an empty route, and otherwise the router's answer, stripped and in
  lower case, whatever it is; every later node keeps it. When the router raises, the node
  sets the route to \<open>hybrid\<close>, records \<open>Router failed:\<close> with the first 100 characters
  of the message, and the graph goes on to the retrieve node.
\<close>

theorem route_after_router:
  "route (snd (run R (w # ws) (Router, initial_state q fmt))) =
     (case router_reply w of
        Raised e \<Rightarrow> ''hybrid''
      | Returned None \<Rightarrow> ''hybrid''
      | Returned (Some r) \<Rightarrow> if r = [] then ''hybrid'' else lower (strip r))
   \<and> step R (w\<lparr>router_reply := Raised e\<rparr>) (Router, s) =
       (Retrieve, s\<lparr>route := ''hybrid'', error := Some (''Router failed: '' @ take 100 e)\<rparr>)"
proof -
  have "route (snd (run R ws (Retrieve, node_router (router_reply w) (initial_state q fmt)))) =
      route (node_router (router_reply w) (initial_state q fmt))"
    by (rule run_keeps_route) simp
  moreover have "route (node_router rr s0) =
     (case rr of
        Raised e \<Rightarrow> ''hybrid''
      | Returned None \<Rightarrow> ''hybrid''
      | Returned (Some r) \<Rightarrow> if r = [] then ''hybrid'' else lower (strip r))" for rr s0
    by (cases "(rr, s0)" rule: node_router.cases) simp_all
  ultimately show ?thesis by simp
qed


section \<open>Properties of the completion normalizer\<close>














lemma route_in_cases: "route_in v = Some r \<Longrightarrow> r = ''rag'' \<or> r = ''sql'' \<or> r = ''hybrid''"
  by (auto simp: route_in_def split: if_splits)

lemma infer_route_cases:
  "infer_route ks m = Some r \<Longrightarrow> r = ''rag'' \<or> r = ''sql'' \<or> r = ''hybrid''"
  by (induction ks) (auto split: option.splits dest: route_in_cases)
















end
